theory Spec2Isabelle
  imports Main "HOL-Library.Sublist" "HOL-Library.Word"
begin

section \<open>The FT5406 multitouch decoder (library/ft5406.py)\<close>

text \<open>
  Python integers are unbounded, so they are \<^typ>\<open>int\<close>. A \<open>Touch\<close> object is a
  record; a method that mutates \<open>self\<close> takes the record and returns the new one.
  Exceptions are values of the type \<open>error\<close>. The callbacks \<open>on_move\<close>,
  \<open>on_press\<close> and \<open>on_release\<close> are code of the application: the model records each
  invocation in a log and assumes that a callback returns normally and does not itself
  write to the touch objects.
\<close>

subsection \<open>Module constants\<close>

definition EV_SYN :: int where "EV_SYN = 0"
definition EV_ABS :: int where "EV_ABS = 3"

definition ABS_X :: int where "ABS_X = 0"
definition ABS_Y :: int where "ABS_Y = 1"

definition ABS_MT_SLOT :: int where "ABS_MT_SLOT = 47"
definition ABS_MT_POSITION_X :: int where "ABS_MT_POSITION_X = 53"
definition ABS_MT_POSITION_Y :: int where "ABS_MT_POSITION_Y = 54"
definition ABS_MT_TRACKING_ID :: int where "ABS_MT_TRACKING_ID = 57"

definition TS_PRESS :: int where "TS_PRESS = 1"
definition TS_RELEASE :: int where "TS_RELEASE = 0"
definition TS_MOVE :: int where "TS_MOVE = 2"

subsection \<open>class Touch\<close>

text \<open>
  A registered callback is known only by an identity; \<open>None\<close> is Python's \<open>None\<close>,
  for which \<open>callable\<close> is false. The fields \<open>t_x\<close>, \<open>t_y\<close> and \<open>t_id\<close> are the
  attributes \<open>_x\<close>, \<open>_y\<close> and \<open>_id\<close>.
\<close>

type_synonym handler = nat

record Touch =
  slot :: int
  t_x :: int
  t_y :: int
  last_x :: int
  last_y :: int
  t_id :: int
  events :: "int list"
  on_move :: "handler option"
  on_press :: "handler option"
  on_release :: "handler option"

definition Touch_init :: "int \<Rightarrow> int \<Rightarrow> int \<Rightarrow> Touch" where
  "Touch_init s x y =
     \<lparr>slot = s, t_x = x, t_y = y, last_x = -1, last_y = -1, t_id = -1, events = [],
      on_move = None, on_press = None, on_release = None\<rparr>"

definition position_of :: "Touch \<Rightarrow> int \<times> int" where
  "position_of t = (t_x t, t_y t)"

definition last_position :: "Touch \<Rightarrow> int \<times> int" where
  "last_position t = (last_x t, last_y t)"

definition valid :: "Touch \<Rightarrow> bool" where
  "valid t = (t_id t > -1)"

text \<open>The setter of the property \<open>id\<close>.\<close>

definition set_id :: "Touch \<Rightarrow> int \<Rightarrow> Touch" where
  "set_id t v =
     (let t1 =
        (if v \<noteq> t_id t then
           (if v = -1 \<and> \<not> TS_RELEASE \<in> set (events t)
              then t\<lparr>events := events t @ [TS_RELEASE]\<rparr>
            else if \<not> TS_PRESS \<in> set (events t)
              then t\<lparr>events := events t @ [TS_PRESS]\<rparr>
            else t)
         else t)
      in t1\<lparr>t_id := v\<rparr>)"

text \<open>The setters of the properties \<open>x\<close> and \<open>y\<close>.\<close>

definition set_x :: "Touch \<Rightarrow> int \<Rightarrow> Touch" where
  "set_x t v =
     (let t1 =
        (if v \<noteq> t_x t \<and> \<not> TS_MOVE \<in> set (events t)
           then t\<lparr>events := events t @ [TS_MOVE]\<rparr>
         else t);
          t2 = t1\<lparr>last_x := t_x t1\<rparr>
      in t2\<lparr>t_x := v\<rparr>)"

definition set_y :: "Touch \<Rightarrow> int \<Rightarrow> Touch" where
  "set_y t v =
     (let t1 =
        (if v \<noteq> t_y t \<and> \<not> TS_MOVE \<in> set (events t)
           then t\<lparr>events := events t @ [TS_MOVE]\<rparr>
         else t);
          t2 = t1\<lparr>last_y := t_y t1\<rparr>
      in t2\<lparr>t_y := v\<rparr>)"

text \<open>
  One invocation of a callback: the callable, and the two arguments it is given, the
  event code and the touch object as it is at the time of the call.
\<close>

record call =
  c_handler :: handler
  c_event :: int
  c_touch :: Touch

definition invoke :: "handler option \<Rightarrow> int \<Rightarrow> Touch \<Rightarrow> call list" where
  "invoke cb event t =
     (case cb of None \<Rightarrow> [] | Some h \<Rightarrow> [\<lparr>c_handler = h, c_event = event, c_touch = t\<rparr>])"

text \<open>The body of the loop of \<open>handle_events\<close>: three independent \<open>if\<close> statements.\<close>

definition handle_event :: "Touch \<Rightarrow> int \<Rightarrow> call list" where
  "handle_event t event =
     (if event = TS_MOVE then invoke (on_move t) event t else []) @
     (if event = TS_PRESS then invoke (on_press t) event t else []) @
     (if event = TS_RELEASE then invoke (on_release t) event t else [])"

text \<open>The loop \<open>for event in self.events\<close>.\<close>

fun run_events :: "Touch \<Rightarrow> int list \<Rightarrow> call list" where
  "run_events t [] = []"
| "run_events t (event # rest) = handle_event t event @ run_events t rest"

definition handle_events :: "Touch \<Rightarrow> call list \<times> Touch" where
  "handle_events t = (run_events t (events t), t\<lparr>events := []\<rparr>)"

subsection \<open>class Touches\<close>

definition valid_touches :: "Touch list \<Rightarrow> Touch list" where
  "valid_touches l = filter valid l"

subsection \<open>Records of the device: \<open>struct.unpack\<close> with the format \<open>llHHi\<close>\<close>

text \<open>
  The format is in native mode, so the size of a C \<open>long\<close> and the byte order are
  those of the platform: they are parameters of the model. With a \<open>long\<close> of 4 or of 8
  bytes no padding is inserted, and \<open>struct.calcsize\<close> is the sum of the field sizes.
\<close>

type_synonym byte = "8 word"

record platform =
  long_size :: nat
  big_endian :: bool

definition EVENT_SIZE :: "platform \<Rightarrow> nat" where
  "EVENT_SIZE pf = long_size pf + long_size pf + 2 + 2 + 4"

datatype error = StructError | IndexError

fun le_uint :: "byte list \<Rightarrow> int" where
  "le_uint [] = 0"
| "le_uint (b # bs) = uint b + 256 * le_uint bs"

definition unsigned_field :: "platform \<Rightarrow> byte list \<Rightarrow> int" where
  "unsigned_field pf bs = le_uint (if big_endian pf then rev bs else bs)"

definition signed_field :: "platform \<Rightarrow> byte list \<Rightarrow> int" where
  "signed_field pf bs =
     (let u = unsigned_field pf bs in
      if u \<ge> 2 ^ (8 * length bs - 1) then u - 2 ^ (8 * length bs) else u)"

text \<open>
  \<open>struct.unpack\<close> raises \<open>struct.error\<close> when the buffer does not have exactly the
  size of the format.
\<close>

definition unpack :: "platform \<Rightarrow> byte list \<Rightarrow> error + (int \<times> int \<times> int \<times> int \<times> int)" where
  "unpack pf bs =
     (if length bs \<noteq> EVENT_SIZE pf then Inl StructError
      else
        (let L = long_size pf in
         Inr (signed_field pf (take L bs),
              signed_field pf (take L (drop L bs)),
              unsigned_field pf (take 2 (drop (L + L) bs)),
              unsigned_field pf (take 2 (drop (L + L + 2) bs)),
              signed_field pf (take 4 (drop (L + L + 4) bs)))))"

text \<open>
  The time stamp of a \<open>TouchEvent\<close> is the float \<open>tv_sec + tv_usec / 1000000\<close>; no
  code of the module reads it, and the model keeps the two integers it is made of.
\<close>

record TouchEvent =
  timestamp :: "int \<times> int"
  ev_type :: int
  ev_code :: int
  ev_value :: int

subsection \<open>class Touchscreen\<close>

text \<open>
  \<open>f_device\<close> is the part of the device file that has not been read yet: \<open>read(n)\<close>
  on the buffered binary file returns the next \<open>n\<close> bytes, fewer when the end of the
  stream comes first, and the empty byte string at the end of the stream. \<open>thread\<close>
  says whether \<open>_thread\<close> is not \<open>None\<close>. \<open>calls\<close> is the log of the callback
  invocations made so far, each with the object whose method made it.
\<close>

datatype touch_ref = SlotRef nat | PositionRef

record Touchscreen =
  running :: bool
  thread :: bool
  f_device :: "byte list"
  position :: Touch
  touches :: "Touch list"
  touch_slot :: int
  calls :: "(touch_ref \<times> call) list"

text \<open>The constructor, given the contents of the device file that \<open>io.open\<close> opens.\<close>

definition Touchscreen_init :: "byte list \<Rightarrow> Touchscreen" where
  "Touchscreen_init dev =
     \<lparr>running = False, thread = False, f_device = dev,
      position = Touch_init 0 0 0,
      touches = map (\<lambda>x. Touch_init (int x) 0 0) [0..<10],
      touch_slot = 0, calls = []\<rparr>"

text \<open>
  The property \<open>_current_touch\<close> is \<open>self.touches[self._touch_slot]\<close>: a negative
  index counts from the end of the list, and an index out of range raises
  \<open>IndexError\<close>. The result is the place of the touch object in the list.
\<close>

definition current_touch :: "Touchscreen \<Rightarrow> error + nat" where
  "current_touch ts =
     (let n = int (length (touches ts));
          i = touch_slot ts;
          j = (if i < 0 then i + n else i)
      in if 0 \<le> j \<and> j < n then Inr (nat j) else Inl IndexError)"

text \<open>
  A statement of \<open>poll\<close> either raises, leaving the state as it is then, or
  completes. \<open>seq\<close> runs two statements in sequence and \<open>if_stmt\<close> is an \<open>if\<close>
  without \<open>else\<close>.
\<close>

type_synonym stmt = "Touchscreen \<Rightarrow> error option \<times> Touchscreen"

definition seq :: "stmt \<Rightarrow> stmt \<Rightarrow> stmt" where
  "seq s1 s2 ts = (case s1 ts of (Some e, ts1) \<Rightarrow> (Some e, ts1) | (None, ts1) \<Rightarrow> s2 ts1)"

definition if_stmt :: "bool \<Rightarrow> stmt \<Rightarrow> stmt" where
  "if_stmt c s ts = (if c then s ts else (None, ts))"

text \<open>The assignment \<open>self._touch_slot = event.value\<close>.\<close>

definition select_slot :: "int \<Rightarrow> stmt" where
  "select_slot v ts = (None, ts\<lparr>touch_slot := v\<rparr>)"

text \<open>An assignment to a property of \<open>self._current_touch\<close>.\<close>

definition assign_current :: "(Touch \<Rightarrow> Touch) \<Rightarrow> stmt" where
  "assign_current f ts =
     (case current_touch ts of
        Inl e \<Rightarrow> (Some e, ts)
      | Inr j \<Rightarrow> (None, ts\<lparr>touches := (touches ts)[j := f (touches ts ! j)]\<rparr>))"

text \<open>An assignment to a property of \<open>self.position\<close>.\<close>

definition assign_position :: "(Touch \<Rightarrow> Touch) \<Rightarrow> stmt" where
  "assign_position f ts = (None, ts\<lparr>position := f (position ts)\<rparr>)"

text \<open>The first value of the generator \<open>__iter__\<close>, which is what \<open>read\<close> returns.\<close>

definition read :: "platform \<Rightarrow> Touchscreen \<Rightarrow> (error + TouchEvent) \<times> Touchscreen" where
  "read pf ts =
     (let event = take (EVENT_SIZE pf) (f_device ts);
          ts1 = ts\<lparr>f_device := drop (EVENT_SIZE pf) (f_device ts)\<rparr>
      in case unpack pf event of
           Inl e \<Rightarrow> (Inl e, ts1)
         | Inr (tv_sec, tv_usec, ty, code, v) \<Rightarrow>
             (Inr \<lparr>timestamp = (tv_sec, tv_usec), ev_type = ty, ev_code = code,
                   ev_value = v\<rparr>, ts1))"

text \<open>The branch \<open>event.type == EV_ABS\<close> of \<open>poll\<close>: six \<open>if\<close> statements in sequence.\<close>

definition on_abs :: "TouchEvent \<Rightarrow> stmt" where
  "on_abs event =
     seq (if_stmt (ev_code event = ABS_MT_SLOT) (select_slot (ev_value event)))
    (seq (if_stmt (ev_code event = ABS_MT_TRACKING_ID)
            (assign_current (\<lambda>t. set_id t (ev_value event))))
    (seq (if_stmt (ev_code event = ABS_MT_POSITION_X)
            (assign_current (\<lambda>t. set_x t (ev_value event))))
    (seq (if_stmt (ev_code event = ABS_MT_POSITION_Y)
            (assign_current (\<lambda>t. set_y t (ev_value event))))
    (seq (if_stmt (ev_code event = ABS_X)
            (assign_position (\<lambda>t. set_x t (ev_value event))))
         (if_stmt (ev_code event = ABS_Y)
            (assign_position (\<lambda>t. set_y t (ev_value event))))))))"

text \<open>
  The loop \<open>for touch in self.touches: touch.handle_events()\<close>; the first argument is
  the place of the next touch in the list.
\<close>

fun handle_all :: "nat \<Rightarrow> Touch list \<Rightarrow> (touch_ref \<times> call) list \<times> Touch list" where
  "handle_all i [] = ([], [])"
| "handle_all i (t # rest) =
     (let (cs, t') = handle_events t;
          (more, rest') = handle_all (Suc i) rest
      in (map (Pair (SlotRef i)) cs @ more, t' # rest'))"

definition dispatch :: "Touchscreen \<Rightarrow> Touchscreen" where
  "dispatch ts =
     (let (cs, l) = handle_all 0 (touches ts)
      in ts\<lparr>touches := l, calls := calls ts @ cs\<rparr>)"

text \<open>
  \<open>poll\<close> either raises or returns: \<open>None\<close> by the bare \<open>return\<close> of a stopped
  thread, the list of touches after a sync record. Every turn of its loop that does not
  leave it has read a whole record, so the loop ends with the device file.
\<close>

datatype outcome = Raised error | Returned "Touch list option"

function poll :: "platform \<Rightarrow> Touchscreen \<Rightarrow> outcome \<times> Touchscreen" where
  "poll pf ts =
     (if thread ts \<and> \<not> running ts then (Returned None, ts)
      else
        (case read pf ts of
           (Inl e, ts1) \<Rightarrow> (Raised e, ts1)
         | (Inr event, ts1) \<Rightarrow>
             if ev_type event = EV_SYN then
               (let ts2 = dispatch ts1 in (Returned (Some (touches ts2)), ts2))
             else if ev_type event = EV_ABS then
               (case on_abs event ts1 of
                  (Some e, ts2) \<Rightarrow> (Raised e, ts2)
                | (None, ts2) \<Rightarrow> poll pf ts2)
             else poll pf ts1))"
  by pat_completeness auto
termination
proof (relation "measure (\<lambda>(pf, ts). length (f_device ts))")
  let ?keeps = "\<lambda>s::stmt. \<forall>ts. f_device (snd (s ts)) = f_device ts"
  have rd: "length (f_device y) < length (f_device ts)"
    if "(x, y) = read pf ts" and "x = Inr b" for pf ts x y and b :: TouchEvent
  proof -
    have "length (take (EVENT_SIZE pf) (f_device ts)) = EVENT_SIZE pf"
      using that by (auto simp: read_def unpack_def Let_def split: if_splits)
    moreover have "f_device y = drop (EVENT_SIZE pf) (f_device ts)"
      using that by (auto simp: read_def Let_def split: sum.splits)
    moreover have "0 < EVENT_SIZE pf"
      by (simp add: EVENT_SIZE_def)
    ultimately show ?thesis
      by simp
  qed
  have k_seq: "?keeps (seq s1 s2)" if "?keeps s1" and "?keeps s2" for s1 s2
  proof
    fix ts
    show "f_device (snd (seq s1 s2 ts)) = f_device ts"
    proof (cases "s1 ts")
      case (Pair r ts1)
      with that(1) have "f_device ts1 = f_device ts"
        by (metis snd_conv)
      with Pair that(2) show ?thesis
        by (cases r) (simp_all add: seq_def)
    qed
  qed
  have k_if: "?keeps (if_stmt c s)" if "?keeps s" for c s
    using that by (simp add: if_stmt_def)
  have k_slot: "?keeps (select_slot v)" for v
    by (simp add: select_slot_def)
  have k_cur: "?keeps (assign_current f)" for f
    by (simp add: assign_current_def split: sum.splits)
  have k_pos: "?keeps (assign_position f)" for f
    by (simp add: assign_position_def)
  have ab: "?keeps (on_abs event)" for event
    unfolding on_abs_def by (intro k_seq k_if k_slot k_cur k_pos)
  show "wf (measure (\<lambda>(pf, ts). length (f_device ts)))"
    by simp
  show "((pf, ya), pf, ts) \<in> measure (\<lambda>(pf, ts). length (f_device ts))"
    if "(x, y) = read pf ts" and "x = Inr b" and "(xa, ya) = on_abs b y"
    for pf ts x y b xa ya
  proof -
    have "f_device ya = f_device y"
      using ab [of b] that(3) by (metis snd_conv)
    with rd [OF that(1,2)] show ?thesis
      by simp
  qed
  show "((pf, y), pf, ts) \<in> measure (\<lambda>(pf, ts). length (f_device ts))"
    if "(x, y) = read pf ts" and "x = Inr b" for pf ts x y b
    using rd [OF that] by simp
qed

declare poll.simps [simp del]

subsection \<open>Notions used to state the properties\<close>

text \<open>Whether a callable is registered for the callback that an event code selects.\<close>

definition registered :: "Touch \<Rightarrow> int \<Rightarrow> bool" where
  "registered t event =
     ((event = TS_MOVE \<and> on_move t \<noteq> None) \<or>
      (event = TS_PRESS \<and> on_press t \<noteq> None) \<or>
      (event = TS_RELEASE \<and> on_release t \<noteq> None))"

text \<open>
  The order of dispatch as the specification words it: Move, then Press, then Release,
  restricted to the events that are pending. It is compared below with the order of
  \<open>handle_events\<close>.
\<close>

definition spec_dispatch_order :: "Touch \<Rightarrow> int list" where
  "spec_dispatch_order t =
     filter (\<lambda>event. event \<in> set (events t) \<and> registered t event)
       [TS_MOVE, TS_PRESS, TS_RELEASE]"

text \<open>A sequence of writes to the coordinates of one touch, none to its id.\<close>

datatype coord_write = WriteX int | WriteY int

fun apply_write :: "Touch \<Rightarrow> coord_write \<Rightarrow> Touch" where
  "apply_write t (WriteX v) = set_x t v"
| "apply_write t (WriteY v) = set_y t v"

definition apply_writes :: "Touch \<Rightarrow> coord_write list \<Rightarrow> Touch" where
  "apply_writes t ws = foldl apply_write t ws"

text \<open>No touch object of the screen has an event pending twice.\<close>

definition no_duplicates :: "Touchscreen \<Rightarrow> bool" where
  "no_duplicates ts =
     (list_all (\<lambda>t. distinct (events t)) (touches ts) \<and> distinct (events (position ts)))"

text \<open>A statement keeps a property of the state, whether it raises or not.\<close>

definition stmt_keeps :: "(Touchscreen \<Rightarrow> bool) \<Rightarrow> stmt \<Rightarrow> bool" where
  "stmt_keeps P s = (\<forall>ts. P ts \<longrightarrow> P (snd (s ts)))"

text \<open>A platform with a \<open>long\<close> of four bytes in little-endian order.\<close>

definition pf32 :: platform where
  "pf32 = \<lparr>long_size = 4, big_endian = False\<rparr>"

text \<open>
  The callback that an event code selects, and the invocations that a list of pending
  events calls for: one for each event whose callback is registered, in the order of the
  list, each of that callback, with the event code and the touch.
\<close>

definition callback_of :: "Touch \<Rightarrow> int \<Rightarrow> handler option" where
  "callback_of t event =
     (if event = TS_MOVE then on_move t
      else if event = TS_PRESS then on_press t
      else if event = TS_RELEASE then on_release t
      else None)"

definition calls_for :: "Touch \<Rightarrow> int list \<Rightarrow> call list" where
  "calls_for t es =
     concat (map (\<lambda>event. case callback_of t event of
                             None \<Rightarrow> []
                           | Some h \<Rightarrow> [\<lparr>c_handler = h, c_event = event, c_touch = t\<rparr>]) es)"

text \<open>A touch with all three callbacks registered.\<close>

definition with_callbacks :: "Touch \<Rightarrow> Touch" where
  "with_callbacks t = t\<lparr>on_move := Some 0, on_press := Some 1, on_release := Some 2\<rparr>"



definition abs_x_frame :: "byte list" where
  "abs_x_frame =
     [0, 0, 0, 0,  0, 0, 0, 0,  3, 0,  0, 0,  5, 0, 0, 0,
      0, 0, 0, 0,  0, 0, 0, 0,  0, 0,  0, 0,  0, 0, 0, 0]"

definition syn_frame :: "byte list" where
  "syn_frame =
     [0, 0, 0, 0,  0, 0, 0, 0,  0, 0,  0, 0,  0, 0, 0, 0]"

text \<open>
  A screen of two touches that is about to read a sync record, the first touch with
  callbacks and with Press and Move pending in that order.
\<close>

definition pending_screen :: Touchscreen where
  "pending_screen =
     (Touchscreen_init syn_frame)
       \<lparr>touches := [with_callbacks ((Touch_init 0 0 0)\<lparr>events := [TS_PRESS, TS_MOVE]\<rparr>),
                    Touch_init 1 0 0]\<rparr>"


text \<open>A new screen whose position object has callbacks registered.\<close>

definition position_screen :: "byte list \<Rightarrow> Touchscreen" where
  "position_screen dev = (Touchscreen_init dev)\<lparr>position := with_callbacks (Touch_init 0 0 0)\<rparr>"

section \<open>Properties of a touch\<close>

lemmas TS_defs = TS_PRESS_def TS_RELEASE_def TS_MOVE_def

subsection \<open>The setters\<close>

text \<open>
  C2. Setting the id to \<open>v\<close> appends no event when \<open>v\<close> is the current id. When it
  is not, Release is appended if \<open>v = -1\<close> and Release is not pending, otherwise Press is
  appended if Press is not pending. In all cases the stored id is \<open>v\<close> afterwards, and no
  other attribute changes.
\<close>

theorem set_id_spec:
  "set_id t v =
     t\<lparr>events :=
         (if v = t_id t then events t
          else if v = -1 \<and> TS_RELEASE \<notin> set (events t) then events t @ [TS_RELEASE]
          else if TS_PRESS \<notin> set (events t) then events t @ [TS_PRESS]
          else events t),
       t_id := v\<rparr>"
  by (simp add: set_id_def)

theorem set_id_spec_witness:
  "events (set_id (Touch_init 0 0 0) 5) = [TS_PRESS] \<and>
   events (set_id (Touch_init 0 0 0) (-1)) = [] \<and>
   events (set_id ((Touch_init 0 0 0)\<lparr>t_id := 5\<rparr>) (-1)) = [TS_RELEASE] \<and>
   events (set_id ((Touch_init 0 0 0)\<lparr>t_id := 5, events := [TS_RELEASE]\<rparr>) (-1)) =
     [TS_RELEASE, TS_PRESS] \<and>
   t_id (set_id (Touch_init 0 0 0) 5) = 5"
  by (simp add: set_id_spec Touch_init_def TS_defs)

text \<open>
  C3. Setting the x (resp. y) coordinate to \<open>v\<close> appends Move exactly when \<open>v\<close>
  differs from the current value and Move is not pending; \<open>last_x\<close> (resp. \<open>last_y\<close>)
  becomes the coordinate as it was before, also when \<open>v\<close> equals it; the stored
  coordinate becomes \<open>v\<close>; no other attribute changes.
\<close>

theorem set_xy_spec:
  "set_x t v =
     t\<lparr>events :=
         (if v \<noteq> t_x t \<and> TS_MOVE \<notin> set (events t) then events t @ [TS_MOVE]
          else events t),
       last_x := t_x t, t_x := v\<rparr> \<and>
   set_y t v =
     t\<lparr>events :=
         (if v \<noteq> t_y t \<and> TS_MOVE \<notin> set (events t) then events t @ [TS_MOVE]
          else events t),
       last_y := t_y t, t_y := v\<rparr>"
  by (simp add: set_x_def set_y_def)

theorem set_xy_spec_witness:
  "events (set_x (Touch_init 0 3 4) 7) = [TS_MOVE] \<and>
   last_x (set_x (Touch_init 0 3 4) 7) = 3 \<and>
   t_x (set_x (Touch_init 0 3 4) 7) = 7 \<and>
   events (set_x (Touch_init 0 3 4) 3) = [] \<and>
   last_x (set_x (Touch_init 0 3 4) 3) = 3 \<and>
   events (set_y (set_x (Touch_init 0 3 4) 7) 9) = [TS_MOVE] \<and>
   last_y (set_y (set_x (Touch_init 0 3 4) 7) 9) = 4"
  by (simp add: set_xy_spec Touch_init_def TS_defs)

lemma set_id_eq:
  "set_id t v =
     t\<lparr>events :=
         (if v = t_id t then events t
          else if v = -1 \<and> TS_RELEASE \<notin> set (events t) then events t @ [TS_RELEASE]
          else if TS_PRESS \<notin> set (events t) then events t @ [TS_PRESS]
          else events t),
       t_id := v\<rparr>"
  by (simp add: set_id_def)

lemma set_x_eq:
  "set_x t v =
     t\<lparr>events :=
         (if v \<noteq> t_x t \<and> TS_MOVE \<notin> set (events t) then events t @ [TS_MOVE]
          else events t),
       last_x := t_x t, t_x := v\<rparr>"
  by (simp add: set_x_def)

lemma set_y_eq:
  "set_y t v =
     t\<lparr>events :=
         (if v \<noteq> t_y t \<and> TS_MOVE \<notin> set (events t) then events t @ [TS_MOVE]
          else events t),
       last_y := t_y t, t_y := v\<rparr>"
  by (simp add: set_y_def)

subsection \<open>Dispatch follows the order of insertion\<close>

lemma run_events_order: "map c_event (run_events t es) = filter (registered t) es"
  by (induction es)
    (auto simp: handle_event_def invoke_def registered_def TS_defs split: option.splits)

lemma run_events_touch: "c \<in> set (run_events t es) \<Longrightarrow> c_touch c = t"
  by (induction es) (auto simp: handle_event_def invoke_def split: option.splits if_splits)

lemma run_events_handler:
  "c \<in> set (run_events t es) \<Longrightarrow>
   (c_event c = TS_MOVE \<and> on_move t = Some (c_handler c)) \<or>
   (c_event c = TS_PRESS \<and> on_press t = Some (c_handler c)) \<or>
   (c_event c = TS_RELEASE \<and> on_release t = Some (c_handler c))"
  by (induction es) (auto simp: handle_event_def invoke_def split: option.splits if_splits)

lemma run_events_calls: "run_events t es = calls_for t es"
  by (induction es)
    (auto simp: calls_for_def callback_of_def handle_event_def invoke_def TS_defs)



text \<open>
  C1, as the code has it. The callbacks of a touch are invoked in the order in which the
  events were appended during the frame: the invocations are, for each pending event in
  the order of the list, one of the callback that the event selects (\<open>on_move\<close> for
  Move, \<open>on_press\<close> for Press, \<open>on_release\<close> for Release) when one is registered
  and none otherwise, each given the event code and the touch. The pending events are
  cleared afterwards.
\<close>

theorem handle_events_insertion_order:
  "fst (handle_events t) = calls_for t (events t) \<and>
   map c_event (fst (handle_events t)) = filter (registered t) (events t) \<and>
   list_all (\<lambda>c. c_touch c = t) (fst (handle_events t)) \<and>
   list_all (\<lambda>c. callback_of t (c_event c) = Some (c_handler c)) (fst (handle_events t)) \<and>
   snd (handle_events t) = t\<lparr>events := []\<rparr>"
proof -
  have "callback_of t (c_event c) = Some (c_handler c)" if "c \<in> set (run_events t es)" for c es
    using run_events_handler [OF that] by (auto simp: callback_of_def TS_defs)
  then show ?thesis
    by (simp add: handle_events_def run_events_order list_all_iff run_events_touch
        run_events_calls [symmetric])
qed

theorem handle_events_insertion_order_witness:
  "map c_event (fst (handle_events (with_callbacks ((Touch_init 0 0 0)\<lparr>events := [0, 2, 1]\<rparr>))))
     = [0, 2, 1] \<and>
   map c_handler (fst (handle_events (with_callbacks ((Touch_init 0 0 0)\<lparr>events := [0, 2, 1]\<rparr>))))
     = [2, 0, 1] \<and>
   map c_event (fst (handle_events ((Touch_init 0 0 0)\<lparr>events := [0, 2, 1]\<rparr>))) = [] \<and>
   fst (handle_events ((Touch_init 0 0 0)\<lparr>events := [0, 2, 1]\<rparr>)) = []"
  using handle_events_insertion_order
    [of "with_callbacks ((Touch_init 0 0 0)\<lparr>events := [0, 2, 1]\<rparr>)"]
    handle_events_insertion_order [of "(Touch_init 0 0 0)\<lparr>events := [0, 2, 1]\<rparr>"]
  by (simp add: with_callbacks_def Touch_init_def registered_def calls_for_def callback_of_def
      TS_defs)

text \<open>
  C1, as the specification states it, fails: a touch that is pressed and then moved in
  one frame has Press and Move pending in that order, and \<open>on_press\<close> is invoked before
  \<open>on_move\<close>.
\<close>

theorem fixed_order_counterexample:
  "1 < length (events (set_x (set_id (with_callbacks (Touch_init 2 0 0)) 10) 100)) \<and>
   map c_event (fst (handle_events (set_x (set_id (with_callbacks (Touch_init 2 0 0)) 10) 100)))
     = [TS_PRESS, TS_MOVE] \<and>
   map c_handler (fst (handle_events (set_x (set_id (with_callbacks (Touch_init 2 0 0)) 10) 100)))
     = [1, 0] \<and>
   spec_dispatch_order (set_x (set_id (with_callbacks (Touch_init 2 0 0)) 10) 100)
     = [TS_MOVE, TS_PRESS] \<and>
   map c_event (fst (handle_events (set_x (set_id (with_callbacks (Touch_init 2 0 0)) 10) 100)))
     \<noteq> spec_dispatch_order (set_x (set_id (with_callbacks (Touch_init 2 0 0)) 10) 100)"
  by (simp add: handle_events_def handle_event_def invoke_def spec_dispatch_order_def
      registered_def set_x_eq set_id_eq with_callbacks_def Touch_init_def TS_defs)

subsection \<open>No event is pending twice\<close>

lemma distinct_set_id: "distinct (events t) \<Longrightarrow> distinct (events (set_id t v))"
  by (simp add: set_id_eq)

lemma distinct_set_x: "distinct (events t) \<Longrightarrow> distinct (events (set_x t v))"
  by (simp add: set_x_eq)

lemma distinct_set_y: "distinct (events t) \<Longrightarrow> distinct (events (set_y t v))"
  by (simp add: set_y_eq)

lemma distinct_apply_writes: "distinct (events t) \<Longrightarrow> distinct (events (apply_writes t ws))"
  unfolding apply_writes_def
proof (induction ws arbitrary: t)
  case Nil
  then show ?case by simp
next
  case (Cons w ws)
  have "distinct (events (apply_write t w))"
    using Cons.prems by (cases w) (simp_all add: distinct_set_x distinct_set_y)
  then show ?case
    using Cons.IH by simp
qed

lemma id_apply_writes: "t_id (apply_writes t ws) = t_id t"
  unfolding apply_writes_def
proof (induction ws arbitrary: t)
  case Nil
  show ?case by simp
next
  case (Cons w ws)
  have "t_id (apply_write t w) = t_id t"
    by (cases w) (simp_all add: set_x_eq set_y_eq)
  then show ?case
    using Cons.IH by simp
qed

lemma distinct_count_le_1: "distinct xs \<Longrightarrow> count_list xs a \<le> 1"
  by (induction xs) auto

section \<open>Properties of the screen\<close>

subsection \<open>The loop of \<open>poll\<close>, step by step\<close>

lemma handle_all_touches: "snd (handle_all i l) = map (\<lambda>t. t\<lparr>events := []\<rparr>) l"
  by (induction l arbitrary: i) (simp_all add: handle_events_def case_prod_beta)

lemma handle_all_calls:
  "fst (handle_all i l) =
     concat (map (\<lambda>(j, t). map (Pair (SlotRef j)) (run_events t (events t)))
       (enumerate i l))"
  by (induction l arbitrary: i) (simp_all add: handle_events_def case_prod_beta)

lemma dispatch_eq:
  "dispatch ts =
     ts\<lparr>touches := map (\<lambda>t. t\<lparr>events := []\<rparr>) (touches ts),
        calls := calls ts @ fst (handle_all 0 (touches ts))\<rparr>"
  by (simp add: dispatch_def case_prod_beta handle_all_touches)

lemma keeps_seq: "stmt_keeps P s1 \<Longrightarrow> stmt_keeps P s2 \<Longrightarrow> stmt_keeps P (seq s1 s2)"
  unfolding stmt_keeps_def
proof (intro allI impI)
  fix ts
  assume k1: "\<forall>ts. P ts \<longrightarrow> P (snd (s1 ts))" and k2: "\<forall>ts. P ts \<longrightarrow> P (snd (s2 ts))"
    and p: "P ts"
  show "P (snd (seq s1 s2 ts))"
  proof (cases "s1 ts")
    case (Pair r ts1)
    with k1 p have "P ts1"
      by (metis snd_conv)
    with Pair k2 show ?thesis
      by (cases r) (simp_all add: seq_def)
  qed
qed

lemma keeps_if: "stmt_keeps P s \<Longrightarrow> stmt_keeps P (if_stmt c s)"
  by (simp add: stmt_keeps_def if_stmt_def)

lemma keeps_on_abs:
  assumes "\<And>v. stmt_keeps P (select_slot v)"
    and "\<And>v. stmt_keeps P (assign_current (\<lambda>t. set_id t v))"
    and "\<And>v. stmt_keeps P (assign_current (\<lambda>t. set_x t v))"
    and "\<And>v. stmt_keeps P (assign_current (\<lambda>t. set_y t v))"
    and "\<And>v. stmt_keeps P (assign_position (\<lambda>t. set_x t v))"
    and "\<And>v. stmt_keeps P (assign_position (\<lambda>t. set_y t v))"
  shows "stmt_keeps P (on_abs event)"
  unfolding on_abs_def by (intro keeps_seq keeps_if assms)

lemma read_registry:
  "snd (read pf ts) = ts\<lparr>f_device := drop (EVENT_SIZE pf) (f_device ts)\<rparr>"
  by (simp add: read_def Let_def split: sum.splits prod.splits)

lemma poll_stopped: "thread ts \<and> \<not> running ts \<Longrightarrow> poll pf ts = (Returned None, ts)"
  by (subst poll.simps) simp

lemma poll_running:
  "\<not> (thread ts \<and> \<not> running ts) \<Longrightarrow>
   poll pf ts =
     (case read pf ts of
        (Inl e, ts1) \<Rightarrow> (Raised e, ts1)
      | (Inr event, ts1) \<Rightarrow>
          if ev_type event = EV_SYN then
            (let ts2 = dispatch ts1 in (Returned (Some (touches ts2)), ts2))
          else if ev_type event = EV_ABS then
            (case on_abs event ts1 of
               (Some e, ts2) \<Rightarrow> (Raised e, ts2)
             | (None, ts2) \<Rightarrow> poll pf ts2)
          else poll pf ts1)"
  by (subst poll.simps, subst if_not_P, assumption, rule refl)

lemma poll_read_error:
  assumes "\<not> (thread ts \<and> \<not> running ts)" and "read pf ts = (Inl e, ts1)"
  shows "poll pf ts = (Raised e, ts1)"
  by (subst poll_running [OF assms(1)]) (simp add: assms(2))

lemma poll_syn:
  assumes "\<not> (thread ts \<and> \<not> running ts)" and "read pf ts = (Inr event, ts1)"
    and "ev_type event = EV_SYN"
  shows "poll pf ts = (Returned (Some (touches (dispatch ts1))), dispatch ts1)"
  by (subst poll_running [OF assms(1)]) (simp add: assms(2,3) Let_def)

lemma poll_abs_error:
  assumes "\<not> (thread ts \<and> \<not> running ts)" and "read pf ts = (Inr event, ts1)"
    and "ev_type event \<noteq> EV_SYN" and "ev_type event = EV_ABS"
    and "on_abs event ts1 = (Some e, ts2)"
  shows "poll pf ts = (Raised e, ts2)"
  by (subst poll_running [OF assms(1)]) (simp add: assms(2,3,5) assms(4) [symmetric])

lemma poll_abs_next:
  assumes "\<not> (thread ts \<and> \<not> running ts)" and "read pf ts = (Inr event, ts1)"
    and "ev_type event \<noteq> EV_SYN" and "ev_type event = EV_ABS"
    and "on_abs event ts1 = (None, ts2)"
  shows "poll pf ts = poll pf ts2"
  by (subst poll_running [OF assms(1)]) (simp add: assms(2,3,5) assms(4) [symmetric])

lemma poll_ignored:
  assumes "\<not> (thread ts \<and> \<not> running ts)" and "read pf ts = (Inr event, ts1)"
    and "ev_type event \<noteq> EV_SYN" and "ev_type event \<noteq> EV_ABS"
  shows "poll pf ts = poll pf ts1"
  by (subst poll_running [OF assms(1)]) (simp add: assms(2,3,4))

lemma poll_invariant:
  assumes rd: "\<And>ts d. P ts \<Longrightarrow> P (ts\<lparr>f_device := d\<rparr>)"
    and ab: "\<And>event. stmt_keeps P (on_abs event)"
    and di: "\<And>ts. P ts \<Longrightarrow> P (dispatch ts)"
  shows "P ts \<Longrightarrow> P (snd (poll pf ts))"
proof (induction pf ts rule: poll.induct)
  case (1 pf ts)
  show ?case
  proof (cases "thread ts \<and> \<not> running ts")
    case True
    then show ?thesis
      using "1.prems" by (simp add: poll_stopped)
  next
    case False
    obtain r ts1 where r: "read pf ts = (r, ts1)"
      by (cases "read pf ts")
    have p1: "P ts1"
      using rd [OF "1.prems"] read_registry [of pf ts] r by simp
    show ?thesis
    proof (cases r)
      case (Inl e)
      then show ?thesis
        using poll_read_error [OF False] r p1 by simp
    next
      case (Inr event)
      note rd_ev = r [unfolded Inr]
      show ?thesis
      proof (cases "ev_type event = EV_SYN")
        case True
        then show ?thesis
          using poll_syn [OF False rd_ev] di [OF p1] by simp
      next
        case nosyn: False
        show ?thesis
        proof (cases "ev_type event = EV_ABS")
          case True
          obtain e ts2 where a: "on_abs event ts1 = (e, ts2)"
            by (cases "on_abs event ts1")
          have p2: "P ts2"
            using ab [of event] p1 a by (metis stmt_keeps_def snd_conv)
          show ?thesis
          proof (cases e)
            case None
            have "P (snd (poll pf ts2))"
              using "1.IH"(1) [OF False r [symmetric] Inr nosyn True a [symmetric] None p2] .
            then show ?thesis
              using poll_abs_next [OF False rd_ev nosyn True a [unfolded None]] by simp
          next
            case (Some err)
            then show ?thesis
              using poll_abs_error [OF False rd_ev nosyn True a [unfolded Some]] p2 by simp
          qed
        next
          case noabs: False
          have "P (snd (poll pf ts1))"
            using "1.IH"(2) [OF False r [symmetric] Inr nosyn noabs p1] .
          then show ?thesis
            using poll_ignored [OF False rd_ev nosyn noabs] by simp
        qed
      qed
    qed
  qed
qed

subsection \<open>No event is pending twice, on the screen\<close>

lemmas ABS_defs = ABS_X_def ABS_Y_def ABS_MT_SLOT_def ABS_MT_POSITION_X_def
  ABS_MT_POSITION_Y_def ABS_MT_TRACKING_ID_def

lemma current_touch_less: "current_touch ts = Inr j \<Longrightarrow> j < length (touches ts)"
  by (auto simp: current_touch_def Let_def split: if_splits)

lemma list_all_update: "list_all P l \<Longrightarrow> j < length l \<Longrightarrow> P (f (l ! j)) \<Longrightarrow> list_all P (l[j := f (l ! j)])"
  by (auto simp: list_all_length nth_list_update)

lemma nodup_device: "no_duplicates ts \<Longrightarrow> no_duplicates (ts\<lparr>f_device := d\<rparr>)"
  by (simp add: no_duplicates_def)

lemma nodup_select_slot: "stmt_keeps no_duplicates (select_slot v)"
  by (simp add: stmt_keeps_def select_slot_def no_duplicates_def)

lemma nodup_assign_current:
  assumes "\<And>t. distinct (events t) \<Longrightarrow> distinct (events (f t))"
  shows "stmt_keeps no_duplicates (assign_current f)"
  unfolding stmt_keeps_def
proof (intro allI impI)
  fix ts
  assume nd: "no_duplicates ts"
  show "no_duplicates (snd (assign_current f ts))"
  proof (cases "current_touch ts")
    case (Inl e)
    then show ?thesis
      using nd by (simp add: assign_current_def)
  next
    case (Inr j)
    have j: "j < length (touches ts)"
      using Inr by (rule current_touch_less)
    have all: "list_all (\<lambda>t. distinct (events t)) (touches ts)"
      using nd by (simp add: no_duplicates_def)
    have "distinct (events (touches ts ! j))"
      using all j by (simp add: list_all_length)
    then have "distinct (events (f (touches ts ! j)))"
      by (rule assms)
    with all j have "list_all (\<lambda>t. distinct (events t)) ((touches ts)[j := f (touches ts ! j)])"
      by (rule list_all_update)
    then show ?thesis
      using nd Inr by (simp add: assign_current_def no_duplicates_def)
  qed
qed

lemma nodup_assign_position:
  assumes "\<And>t. distinct (events t) \<Longrightarrow> distinct (events (f t))"
  shows "stmt_keeps no_duplicates (assign_position f)"
  using assms by (simp add: stmt_keeps_def assign_position_def no_duplicates_def)

lemma nodup_on_abs: "stmt_keeps no_duplicates (on_abs event)"
  by (intro keeps_on_abs nodup_select_slot nodup_assign_current nodup_assign_position
      distinct_set_id distinct_set_x distinct_set_y)

lemma nodup_dispatch: "no_duplicates ts \<Longrightarrow> no_duplicates (dispatch ts)"
  by (simp add: dispatch_eq no_duplicates_def list_all_iff)

lemma init_touches_distinct:
  "list_all (\<lambda>t. distinct (events t)) (map (\<lambda>x. Touch_init (f x) 0 0) xs)"
  by (simp add: list_all_iff Touch_init_def)

lemma nodup_init: "no_duplicates (Touchscreen_init dev)"
  unfolding no_duplicates_def Touchscreen_init_def
  by (simp only: Touchscreen.simps init_touches_distinct simp_thms) (simp add: Touch_init_def)

lemma nodup_poll: "no_duplicates ts \<Longrightarrow> no_duplicates (snd (poll pf ts))"
  by (rule poll_invariant [where P = no_duplicates]) (simp_all add: nodup_device nodup_on_abs nodup_dispatch)

text \<open>
  C4. No pending-event list holds an event twice. A new touch has none pending, the
  dispatch leaves none, and the setters of the id and of the coordinates keep the lists
  free of duplicates; so does any sequence of coordinate writes, which leaves the id as it
  is and at most one Move pending, however many writes there are. On the screen, the
  constructor gives lists without duplicates and \<open>poll\<close> keeps them so, whether it
  returns or raises.
\<close>

theorem no_duplicate_events:
  "distinct (events (Touch_init s x y)) \<and>
   distinct (events (snd (handle_events t))) \<and>
   (distinct (events t) \<longrightarrow>
      distinct (events (set_id t v)) \<and> distinct (events (set_x t v)) \<and>
      distinct (events (set_y t v)) \<and>
      distinct (events (apply_writes t ws)) \<and>
      count_list (events (apply_writes t ws)) TS_MOVE \<le> 1 \<and>
      t_id (apply_writes t ws) = t_id t) \<and>
   no_duplicates (Touchscreen_init dev) \<and>
   (no_duplicates ts \<longrightarrow> no_duplicates (snd (poll pf ts)))"
proof (intro conjI impI)
  show "distinct (events (Touch_init s x y))"
    by (simp add: Touch_init_def)
  show "distinct (events (snd (handle_events t)))"
    by (simp add: handle_events_def)
  show "no_duplicates (Touchscreen_init dev)"
    by (rule nodup_init)
  show "no_duplicates (snd (poll pf ts))" if "no_duplicates ts"
    using that by (rule nodup_poll)
  show "t_id (apply_writes t ws) = t_id t"
    by (rule id_apply_writes)
next
  assume d: "distinct (events t)"
  show "distinct (events (set_id t v))"
    using d by (rule distinct_set_id)
  show "distinct (events (set_x t v))"
    using d by (rule distinct_set_x)
  show "distinct (events (set_y t v))"
    using d by (rule distinct_set_y)
  show "distinct (events (apply_writes t ws))"
    using d by (rule distinct_apply_writes)
  then show "count_list (events (apply_writes t ws)) TS_MOVE \<le> 1"
    by (rule distinct_count_le_1)
qed

theorem no_duplicate_events_witness:
  "distinct (events (Touch_init 0 0 0)) \<and>
   events (apply_writes (Touch_init 0 0 0) [WriteX 1, WriteX 2, WriteY 3, WriteX 2]) = [TS_MOVE] \<and>
   count_list (events (apply_writes (Touch_init 0 0 0) [WriteX 1, WriteX 2, WriteY 3, WriteX 2]))
     TS_MOVE \<le> 1 \<and>
   no_duplicates (Touchscreen_init []) \<and>
   no_duplicates (snd (poll pf32 (Touchscreen_init [])))"
  using no_duplicate_events
    [of 0 0 0 "Touch_init 0 0 0" 5 "[WriteX 1, WriteX 2, WriteY 3, WriteX 2]" "[]"
      "Touchscreen_init []" pf32]
  by (simp add: Touch_init_def apply_writes_def set_x_eq set_y_eq TS_defs)

subsection \<open>Press and release in one frame\<close>






subsection \<open>Short reads and the end of the stream\<close>

lemma init_fields:
  "thread (Touchscreen_init dev) = False"
  "running (Touchscreen_init dev) = False"
  "f_device (Touchscreen_init dev) = dev"
  "touch_slot (Touchscreen_init dev) = 0"
  "calls (Touchscreen_init dev) = []"
  "position (Touchscreen_init dev) = Touch_init 0 0 0"
  "length (touches (Touchscreen_init dev)) = 10"
  by (simp_all add: Touchscreen_init_def)

lemma EVENT_SIZE_pf32: "EVENT_SIZE pf32 = 16"
  by (simp add: EVENT_SIZE_def pf32_def)

lemma unpack_wrong_size: "length bs \<noteq> EVENT_SIZE pf \<Longrightarrow> unpack pf bs = Inl StructError"
  by (simp add: unpack_def)

lemma read_short:
  "length (take (EVENT_SIZE pf) (f_device ts)) \<noteq> EVENT_SIZE pf \<Longrightarrow>
   read pf ts = (Inl StructError, ts\<lparr>f_device := drop (EVENT_SIZE pf) (f_device ts)\<rparr>)"
  by (simp add: read_def Let_def unpack_wrong_size)

lemma poll_short:
  assumes "\<not> (thread ts \<and> \<not> running ts)"
    and "length (take (EVENT_SIZE pf) (f_device ts)) \<noteq> EVENT_SIZE pf"
  shows "poll pf ts = (Raised StructError, ts\<lparr>f_device := drop (EVENT_SIZE pf) (f_device ts)\<rparr>)"
  using assms(1) read_short [OF assms(2)] by (rule poll_read_error)

lemma poll_short_outcome:
  assumes "\<not> (thread ts \<and> \<not> running ts)" and "length (f_device ts) < EVENT_SIZE pf"
  shows "fst (poll pf ts) = Raised StructError"
proof -
  have "length (take (EVENT_SIZE pf) (f_device ts)) \<noteq> EVENT_SIZE pf"
    using assms(2) by simp
  with assms(1) show ?thesis
    by (simp add: poll_short)
qed

text \<open>
  C8. A read that returns a byte string whose length is not the size of a record raises
  the error of \<open>struct.unpack\<close>, out of \<open>read\<close> and out of \<open>poll\<close>, and the touches,
  the position, the current slot and the log of callbacks are what they were before the
  read.
\<close>

theorem malformed_record_raises:
  "\<not> (thread ts \<and> \<not> running ts) \<Longrightarrow>
   length (take (EVENT_SIZE pf) (f_device ts)) \<noteq> EVENT_SIZE pf \<Longrightarrow>
   unpack pf (take (EVENT_SIZE pf) (f_device ts)) = Inl StructError \<and>
   read pf ts = (Inl StructError, ts\<lparr>f_device := drop (EVENT_SIZE pf) (f_device ts)\<rparr>) \<and>
   poll pf ts = (Raised StructError, ts\<lparr>f_device := drop (EVENT_SIZE pf) (f_device ts)\<rparr>) \<and>
   touches (snd (poll pf ts)) = touches ts \<and>
   position (snd (poll pf ts)) = position ts \<and>
   touch_slot (snd (poll pf ts)) = touch_slot ts \<and>
   calls (snd (poll pf ts)) = calls ts"
  by (simp add: unpack_wrong_size read_short poll_short)

theorem malformed_record_raises_witness:
  "fst (poll pf32 (Touchscreen_init [1, 2, 3])) = Raised StructError \<and>
   touches (snd (poll pf32 (Touchscreen_init [1, 2, 3]))) = touches (Touchscreen_init [1, 2, 3]) \<and>
   position (snd (poll pf32 (Touchscreen_init [1, 2, 3]))) = Touch_init 0 0 0 \<and>
   touch_slot (snd (poll pf32 (Touchscreen_init [1, 2, 3]))) = 0"
  using malformed_record_raises [of "Touchscreen_init [1, 2, 3]" pf32]
  by (simp add: init_fields EVENT_SIZE_pf32)

text \<open>
  C7, as the code has it. At the end of the stream the read returns the empty byte
  string, and \<open>struct.unpack\<close> raises its error: decoding stops, \<open>poll\<close> raises and
  changes nothing. The error is the one that a truncated record raises, so the two
  conditions reach the caller as the same failure.
\<close>

theorem end_of_stream_raises_struct_error:
  "\<not> (thread ts \<and> \<not> running ts) \<Longrightarrow> f_device ts = [] \<Longrightarrow>
   read pf ts = (Inl StructError, ts) \<and>
   poll pf ts = (Raised StructError, ts) \<and>
   (length bs < EVENT_SIZE pf \<longrightarrow> fst (poll pf (ts\<lparr>f_device := bs\<rparr>)) = fst (poll pf ts))"
proof -
  assume ns: "\<not> (thread ts \<and> \<not> running ts)" and eof: "f_device ts = []"
  have sz: "length (take (EVENT_SIZE pf) (f_device ts)) \<noteq> EVENT_SIZE pf"
    using eof by (simp add: EVENT_SIZE_def)
  have same: "ts\<lparr>f_device := drop (EVENT_SIZE pf) (f_device ts)\<rparr> = ts"
    using eof by simp
  have r: "read pf ts = (Inl StructError, ts)"
    using read_short [OF sz] same by simp
  have p: "poll pf ts = (Raised StructError, ts)"
    using poll_short [OF ns sz] same by simp
  have "fst (poll pf (ts\<lparr>f_device := bs\<rparr>)) = Raised StructError" if "length bs < EVENT_SIZE pf"
    using ns that by (intro poll_short_outcome) simp_all
  with r p show ?thesis
    by simp
qed

theorem end_of_stream_raises_struct_error_witness:
  "poll pf32 (Touchscreen_init []) = (Raised StructError, Touchscreen_init []) \<and>
   fst (poll pf32 ((Touchscreen_init [])\<lparr>f_device := [1, 2, 3]\<rparr>)) = Raised StructError"
  using end_of_stream_raises_struct_error [of "Touchscreen_init []" pf32 "[1, 2, 3]"]
  by (simp add: init_fields EVENT_SIZE_pf32)

text \<open>
  C7, as the specification states it, fails: the end of the stream and a truncated record
  give the same outcome, so the caller cannot tell them apart.
\<close>

theorem end_of_stream_counterexample:
  "fst (poll pf32 (Touchscreen_init [])) = Raised StructError \<and>
   fst (poll pf32 (Touchscreen_init [1, 2, 3])) = Raised StructError \<and>
   fst (poll pf32 (Touchscreen_init [])) = fst (poll pf32 (Touchscreen_init [1, 2, 3]))"
  by (simp add: poll_short_outcome init_fields EVENT_SIZE_pf32)

subsection \<open>The sync record\<close>

lemma read_Inr_registry:
  "read pf ts = (Inr event, ts1) \<Longrightarrow>
   ts1 = ts\<lparr>f_device := drop (EVENT_SIZE pf) (f_device ts)\<rparr>"
  using read_registry [of pf ts] by simp

lemma filter_tagged:
  "filter (\<lambda>c. fst c = r) (map (Pair r') cs) = (if r' = r then map (Pair r') cs else [])"
  by (induction cs) auto

lemma handle_all_slot:
  "filter (\<lambda>c. fst c = SlotRef j) (fst (handle_all i l)) =
     (if i \<le> j \<and> j < i + length l
      then map (Pair (SlotRef j)) (run_events (l ! (j - i)) (events (l ! (j - i))))
      else [])"
proof (induction l arbitrary: i)
  case Nil
  show ?case by auto
next
  case (Cons t l)
  have split: "fst (handle_all i (t # l)) =
      map (Pair (SlotRef i)) (run_events t (events t)) @ fst (handle_all (Suc i) l)"
    by (simp add: handle_events_def case_prod_beta)
  show ?case
  proof (cases "j = i")
    case True
    have "filter (\<lambda>c. fst c = SlotRef j) (fst (handle_all (Suc i) l)) = []"
      unfolding Cons.IH using True by simp
    moreover have "filter (\<lambda>c. fst c = SlotRef j) (map (Pair (SlotRef i)) (run_events t (events t)))
        = map (Pair (SlotRef j)) (run_events t (events t))"
      using True by (simp add: filter_tagged)
    ultimately show ?thesis
      unfolding split using True by simp
  next
    case False
    have "(t # l) ! (j - i) = l ! (j - Suc i)" if "i < j"
      using that by (simp add: nth_Cons')
    with False show ?thesis
      by (auto simp: split filter_tagged Cons.IH simp del: handle_all.simps)
  qed
qed

lemma handle_all_slot_events:
  assumes "j < length l"
  shows "map (c_event \<circ> snd) (filter (\<lambda>c. fst c = SlotRef j) (fst (handle_all 0 l))) =
    filter (registered (l ! j)) (events (l ! j))"
  using assms by (simp add: handle_all_slot comp_def run_events_order [symmetric])

lemma handle_all_slot_calls:
  assumes "j < length l"
  shows "filter (\<lambda>c. fst c = SlotRef j) (fst (handle_all 0 l)) =
    map (Pair (SlotRef j)) (calls_for (l ! j) (events (l ! j)))"
  using assms by (simp add: handle_all_slot run_events_calls)

lemma handle_all_log:
  "fst (handle_all i l) =
     concat (map (\<lambda>(j, t). map (Pair (SlotRef j)) (calls_for t (events t))) (enumerate i l))"
  by (simp add: handle_all_calls run_events_calls)

lemma handle_all_no_position: "list_all (\<lambda>c. fst c \<noteq> PositionRef) (fst (handle_all i l))"
  by (induction l arbitrary: i) (auto simp: handle_events_def case_prod_beta list_all_iff)

text \<open>
  C5. When the record that \<open>poll\<close> reads is a sync record, \<open>poll\<close> returns the list of
  touches; every touch of the list then has no event pending, whether it was written to
  in the frame or not; and the log of callbacks has grown by the invocations of
  \<open>handle_events\<close> for every slot, in the order of the slots: for each slot, one
  invocation for each pending event with a registered callback, in the order of the
  pending list, each of the callback of that touch that the event selects, with the event
  code and the touch as it is before its list is cleared. The position object and the
  current slot are as they were.
\<close>

theorem syn_dispatches_all_slots:
  "\<not> (thread ts \<and> \<not> running ts) \<Longrightarrow> read pf ts = (Inr event, ts1) \<Longrightarrow>
   ev_type event = EV_SYN \<Longrightarrow>
   poll pf ts = (Returned (Some (touches (dispatch ts1))), dispatch ts1) \<and>
   touches (dispatch ts1) = map (\<lambda>t. t\<lparr>events := []\<rparr>) (touches ts) \<and>
   list_all (\<lambda>t. events t = []) (touches (dispatch ts1)) \<and>
   calls (dispatch ts1) = calls ts @ fst (handle_all 0 (touches ts)) \<and>
   calls (dispatch ts1) =
     calls ts @
     concat (map (\<lambda>(j, t). map (Pair (SlotRef j)) (calls_for t (events t)))
       (enumerate 0 (touches ts))) \<and>
   (\<forall>j < length (touches ts).
      filter (\<lambda>c. fst c = SlotRef j) (drop (length (calls ts)) (calls (dispatch ts1))) =
      map (Pair (SlotRef j)) (calls_for (touches ts ! j) (events (touches ts ! j)))) \<and>
   (\<forall>j < length (touches ts).
      map (c_event \<circ> snd)
        (filter (\<lambda>c. fst c = SlotRef j) (fst (handle_all 0 (touches ts)))) =
      filter (registered (touches ts ! j)) (events (touches ts ! j))) \<and>
   position (dispatch ts1) = position ts \<and>
   touch_slot (dispatch ts1) = touch_slot ts"
proof -
  assume ns: "\<not> (thread ts \<and> \<not> running ts)" and r: "read pf ts = (Inr event, ts1)"
    and syn: "ev_type event = EV_SYN"
  have ts1: "touches ts1 = touches ts" "calls ts1 = calls ts" "position ts1 = position ts"
    "touch_slot ts1 = touch_slot ts"
    using read_Inr_registry [OF r] by simp_all
  have "poll pf ts = (Returned (Some (touches (dispatch ts1))), dispatch ts1)"
    using ns r syn by (rule poll_syn)
  moreover have "list_all (\<lambda>t. events t = []) (map (\<lambda>t. t\<lparr>events := []\<rparr>) (touches ts))"
    by (simp add: list_all_iff)
  moreover have log: "calls (dispatch ts1) = calls ts @ fst (handle_all 0 (touches ts))"
    by (simp add: dispatch_eq ts1)
  moreover have "calls (dispatch ts1) =
     calls ts @
     concat (map (\<lambda>(j, t). map (Pair (SlotRef j)) (calls_for t (events t)))
       (enumerate 0 (touches ts)))"
    by (simp only: log handle_all_log)
  moreover have "\<forall>j < length (touches ts).
      filter (\<lambda>c. fst c = SlotRef j) (drop (length (calls ts)) (calls (dispatch ts1))) =
      map (Pair (SlotRef j)) (calls_for (touches ts ! j) (events (touches ts ! j)))"
    by (simp add: log handle_all_slot_calls)
  moreover have "\<forall>j < length (touches ts).
      map (c_event \<circ> snd)
        (filter (\<lambda>c. fst c = SlotRef j) (fst (handle_all 0 (touches ts)))) =
      filter (registered (touches ts ! j)) (events (touches ts ! j))"
    by (simp add: handle_all_slot_events del: o_apply)
  moreover have "touches (dispatch ts1) = map (\<lambda>t. t\<lparr>events := []\<rparr>) (touches ts)"
    "position (dispatch ts1) = position ts" "touch_slot (dispatch ts1) = touch_slot ts"
    by (simp_all add: dispatch_eq ts1)
  ultimately show ?thesis
    by (simp del: o_apply)
qed

subsection \<open>Reading records on a platform with a \<open>long\<close> of four bytes\<close>

lemma read_pf32:
  assumes "f_device ts = [s0, s1, s2, s3, u0, u1, u2, u3, t0, t1, c0, c1, v0, v1, v2, v3] @ rest"
  shows "read pf32 ts =
    (Inr \<lparr>timestamp = (signed_field pf32 [s0, s1, s2, s3], signed_field pf32 [u0, u1, u2, u3]),
          ev_type = unsigned_field pf32 [t0, t1], ev_code = unsigned_field pf32 [c0, c1],
          ev_value = signed_field pf32 [v0, v1, v2, v3]\<rparr>,
     ts\<lparr>f_device := rest\<rparr>)"
proof -
  have sz: "EVENT_SIZE pf32 = 16" and L: "long_size pf32 = 4"
    by (simp_all add: EVENT_SIZE_def pf32_def)
  show ?thesis
    by (simp add: read_def unpack_def sz L assms Let_def)
qed

lemma fields_pf32:
  "unsigned_field pf32 [a, b] = uint a + 256 * uint b"
  "signed_field pf32 [a, b, c, d] =
     (let u = uint a + 256 * (uint b + 256 * (uint c + 256 * uint d))
      in if u \<ge> 2147483648 then u - 4294967296 else u)"
  by (simp_all add: unsigned_field_def signed_field_def pf32_def Let_def)


lemma seq_skip: "seq (if_stmt False s) s' = s'" "seq s (if_stmt False s') = s"
  by (auto simp: seq_def if_stmt_def fun_eq_iff split: prod.splits option.splits)

lemma if_stmt_True: "if_stmt True s = s"
  by (simp add: if_stmt_def fun_eq_iff)




lemma on_abs_x:
  "ev_code event = ABS_X \<Longrightarrow> on_abs event = assign_position (\<lambda>t. set_x t (ev_value event))"
  by (simp add: on_abs_def ABS_defs seq_skip if_stmt_True)

lemma on_abs_y:
  "ev_code event = ABS_Y \<Longrightarrow> on_abs event = assign_position (\<lambda>t. set_y t (ev_value event))"
  by (simp add: on_abs_def ABS_defs seq_skip if_stmt_True)


subsection \<open>The position object is never dispatched\<close>

lemma position_poll:
  "prefix (events (position ts)) (events (position (snd (poll pf ts)))) \<and>
   prefix (calls ts) (calls (snd (poll pf ts))) \<and>
   list_all (\<lambda>c. fst c \<noteq> PositionRef) (drop (length (calls ts)) (calls (snd (poll pf ts))))"
proof -
  define P where "P = (\<lambda>ts' :: Touchscreen. prefix (events (position ts)) (events (position ts')) \<and>
    prefix (calls ts) (calls ts') \<and>
    list_all (\<lambda>c. fst c \<noteq> PositionRef) (drop (length (calls ts)) (calls ts')))"
  have cur: "stmt_keeps P (assign_current f)" for f
    by (simp add: stmt_keeps_def assign_current_def P_def split: sum.splits)
  have px: "stmt_keeps P (assign_position (\<lambda>t. set_x t v))" for v
    by (simp add: stmt_keeps_def assign_position_def P_def set_x_eq)
  have py: "stmt_keeps P (assign_position (\<lambda>t. set_y t v))" for v
    by (simp add: stmt_keeps_def assign_position_def P_def set_y_eq)
  have sl: "stmt_keeps P (select_slot v)" for v
    by (simp add: stmt_keeps_def select_slot_def P_def)
  have di: "P (dispatch ts')" if "P ts'" for ts'
  proof -
    have le: "length (calls ts) \<le> length (calls ts')"
      using that by (simp add: P_def prefix_length_le)
    show ?thesis
      using that le by (simp add: P_def dispatch_eq handle_all_no_position)
  qed
  have "P (snd (poll pf ts))"
  proof (rule poll_invariant)
    show "P ts"
      by (simp add: P_def)
    show "P (ts'\<lparr>f_device := d\<rparr>)" if "P ts'" for ts' d
      using that by (simp add: P_def)
    show "stmt_keeps P (on_abs event)" for event
      by (intro keeps_on_abs cur px py sl)
    show "P (dispatch ts')" if "P ts'" for ts'
      using that by (rule di)
  qed
  then show ?thesis
    by (simp add: P_def)
qed

text \<open>
  C10. Whatever records \<open>poll\<close> processes, what was pending on the position object
  stays pending, in place, at the head of its list: no sync record clears it. The
  invocations that \<open>poll\<close> adds to the log of callbacks are none of the position object.
  A record \<open>ABS_X\<close> or \<open>ABS_Y\<close> is a write to the coordinate of the position object,
  which appends Move as for any touch, and the dispatch leaves the position object as it
  is.
\<close>

theorem position_never_dispatched:
  "prefix (events (position ts)) (events (position (snd (poll pf ts)))) \<and>
   prefix (calls ts) (calls (snd (poll pf ts))) \<and>
   list_all (\<lambda>c. fst c \<noteq> PositionRef) (drop (length (calls ts)) (calls (snd (poll pf ts)))) \<and>
   position (dispatch ts) = position ts \<and>
   (ev_code event = ABS_X \<longrightarrow>
      on_abs event ts = (None, ts\<lparr>position := set_x (position ts) (ev_value event)\<rparr>)) \<and>
   (ev_code event = ABS_Y \<longrightarrow>
      on_abs event ts = (None, ts\<lparr>position := set_y (position ts) (ev_value event)\<rparr>))"
  using position_poll [of ts pf]
  by (simp add: dispatch_eq on_abs_x on_abs_y assign_position_def)

subsection \<open>Slot selection is not checked\<close>


subsection \<open>Runs on concrete device contents\<close>

lemma long_size_pf32: "long_size pf32 = 4"
  by (simp add: pf32_def)

lemmas read_pf32_simps = read_def unpack_def EVENT_SIZE_pf32 long_size_pf32 Let_def fields_pf32




lemma handle_all_idle: "list_all (\<lambda>t. events t = []) l \<Longrightarrow> fst (handle_all i l) = []"
  by (induction l arbitrary: i) (simp_all add: handle_events_def case_prod_beta)

lemma init_touches_idle: "list_all (\<lambda>t. events t = []) (touches (Touchscreen_init dev))"
  by (simp add: Touchscreen_init_def list_all_iff Touch_init_def)



lemma pending_fields:
  "thread pending_screen = False"
  "running pending_screen = False"
  "f_device pending_screen = syn_frame"
  "calls pending_screen = []"
  "touches pending_screen =
     [with_callbacks ((Touch_init 0 0 0)\<lparr>events := [TS_PRESS, TS_MOVE]\<rparr>), Touch_init 1 0 0]"
  by (simp_all add: pending_screen_def init_fields)

lemma pending_read:
  "read pf32 pending_screen =
     (Inr \<lparr>timestamp = (0, 0), ev_type = 0, ev_code = 0, ev_value = 0\<rparr>,
      pending_screen\<lparr>f_device := []\<rparr>)"
  by (simp add: read_pf32_simps pending_fields syn_frame_def)

theorem syn_dispatches_all_slots_witness:
  "fst (poll pf32 pending_screen) =
     Returned (Some [with_callbacks (Touch_init 0 0 0), Touch_init 1 0 0]) \<and>
   map (c_event \<circ> snd) (calls (snd (poll pf32 pending_screen))) = [TS_PRESS, TS_MOVE] \<and>
   map (c_handler \<circ> snd) (calls (snd (poll pf32 pending_screen))) = [1, 0] \<and>
   map fst (calls (snd (poll pf32 pending_screen))) = [SlotRef 0, SlotRef 0]"
  using syn_dispatches_all_slots [of pending_screen pf32
      "\<lparr>timestamp = (0, 0), ev_type = 0, ev_code = 0, ev_value = 0\<rparr>"
      "pending_screen\<lparr>f_device := []\<rparr>"]
  by (simp add: pending_fields pending_read EV_SYN_def handle_events_def handle_event_def
      invoke_def with_callbacks_def Touch_init_def TS_defs)

lemma abs_x_run:
  assumes ns: "\<not> (thread ts \<and> \<not> running ts)"
  shows "poll pf32 (ts\<lparr>f_device := abs_x_frame\<rparr>) =
    (Returned (Some (touches (dispatch (ts\<lparr>f_device := [],
        position := set_x (position ts) 5\<rparr>)))),
     dispatch (ts\<lparr>f_device := [], position := set_x (position ts) 5\<rparr>))"
proof -
  let ?e1 = "\<lparr>timestamp = (0, 0), ev_type = 3, ev_code = 0, ev_value = 5\<rparr>"
  let ?e2 = "\<lparr>timestamp = (0, 0), ev_type = 0, ev_code = 0, ev_value = 0\<rparr>"
  let ?s1 = "ts\<lparr>f_device := syn_frame\<rparr>"
  let ?s2 = "ts\<lparr>f_device := syn_frame, position := set_x (position ts) 5\<rparr>"
  let ?s3 = "ts\<lparr>f_device := [], position := set_x (position ts) 5\<rparr>"
  have r1: "read pf32 (ts\<lparr>f_device := abs_x_frame\<rparr>) = (Inr ?e1, ?s1)"
    by (simp add: abs_x_frame_def syn_frame_def read_pf32_simps)
  have a1: "on_abs ?e1 ?s1 = (None, ?s2)"
    by (simp add: on_abs_x ABS_defs assign_position_def)
  have p1: "poll pf32 (ts\<lparr>f_device := abs_x_frame\<rparr>) = poll pf32 ?s2"
    by (rule poll_abs_next [OF _ r1 _ _ a1]) (simp_all add: ns EV_SYN_def EV_ABS_def)
  have r2: "read pf32 ?s2 = (Inr ?e2, ?s3)"
    by (simp add: syn_frame_def read_pf32_simps)
  have p2: "poll pf32 ?s2 = (Returned (Some (touches (dispatch ?s3))), dispatch ?s3)"
    by (rule poll_syn [OF _ r2]) (simp_all add: ns EV_SYN_def)
  show ?thesis
    unfolding p1 p2 ..
qed

lemma position_screen_device:
  "position_screen dev = (position_screen [])\<lparr>f_device := dev\<rparr>"
  by (simp add: position_screen_def Touchscreen_init_def)

lemma position_screen_fields:
  "thread (position_screen dev) = False"
  "running (position_screen dev) = False"
  "calls (position_screen dev) = []"
  "position (position_screen dev) = with_callbacks (Touch_init 0 0 0)"
  "touches (position_screen dev) = touches (Touchscreen_init dev)"
  by (simp_all add: position_screen_def init_fields)

theorem position_never_dispatched_witness:
  "on_move (position (position_screen abs_x_frame)) = Some 0 \<and>
   fst (poll pf32 (position_screen abs_x_frame)) =
     Returned (Some (touches (snd (poll pf32 (position_screen abs_x_frame))))) \<and>
   events (position (snd (poll pf32 (position_screen abs_x_frame)))) = [TS_MOVE] \<and>
   calls (snd (poll pf32 (position_screen abs_x_frame))) = []"
proof -
  have run: "poll pf32 (position_screen abs_x_frame) =
    (Returned (Some (touches (dispatch ((position_screen [])\<lparr>f_device := [],
        position := set_x (position (position_screen [])) 5\<rparr>)))),
     dispatch ((position_screen [])\<lparr>f_device := [],
        position := set_x (position (position_screen [])) 5\<rparr>))"
    using abs_x_run [of "position_screen []"] position_screen_device [of abs_x_frame, symmetric]
    by (simp add: position_screen_fields)
  show ?thesis
    using position_never_dispatched [of "position_screen abs_x_frame" pf32]
    by (simp add: run dispatch_eq position_screen_fields handle_all_idle init_touches_idle
        set_x_eq with_callbacks_def Touch_init_def)
qed

end
